theory Spec2Isabelle
  imports Main
begin

section \<open>Configuration builder (config.go)\<close>

text \<open>
  Go strings are byte sequences; they are modelled as \<^typ>\<open>string\<close>, whose characters
  are bytes. The two error packages in use (the standard \<open>errors\<close> and
  \<open>github.com/pkg/errors\<close>) are modelled by one datatype: \<open>errors.New\<close> builds an error
  from its message, \<open>errors.WithStack\<close> wraps an error together with the call stack
  captured at the wrapping point (the stack itself is opaque here).
\<close>

datatype error = errors_New string | errors_WithStack error

text \<open>The method \<open>Error()\<close> of an error value: its message.\<close>

fun error_Error :: "error \<Rightarrow> string" where
  "error_Error (errors_New m) = m"
| "error_Error (errors_WithStack e) = error_Error e"

record Config =
  ServiceName :: string
  Pod :: string
  LogLevel :: string
  LogAnalyserAddress :: string
  LogAnalyserEnabled :: bool
  Console :: bool
  LogFilePath :: string

text \<open>The zero value \<open>Config{}\<close>: every string empty, every flag false.\<close>

definition Config_zero :: Config where
  "Config_zero =
     \<lparr>ServiceName = [], Pod = [], LogLevel = [], LogAnalyserAddress = [],
      LogAnalyserEnabled = False, Console = False, LogFilePath = []\<rparr>"

definition err_no_destination :: error where
  "err_no_destination = errors_New
     ''at least one logging option (Console, LogFile, LogAnalyserAddress) must be selected''"

definition err_no_identity :: error where
  "err_no_identity = errors_New ''service name and PodName must be provided''"

text \<open>
  \<open>NewLogger\<close> returns the pair \<open>(Config, error)\<close> as Go does; a nil error is \<open>None\<close>.
  The argument order is the source's. The function reads and writes no package-level
  variable, so it takes and returns no state.
\<close>

definition NewLogger ::
  "string \<Rightarrow> bool \<Rightarrow> string \<Rightarrow> string \<Rightarrow> string \<Rightarrow> string \<Rightarrow> bool \<Rightarrow> Config \<times> error option" where
  "NewLogger serviceName console pod logFilePath logAnalyserAddress logLevel logAnalyserEnabled =
     (if \<not> console \<and> logFilePath = [] \<and> logAnalyserAddress = [] then
        (Config_zero, Some err_no_destination)
      else if serviceName = [] \<and> pod = [] then
        (Config_zero, Some err_no_identity)
      else
        (\<lparr>ServiceName = serviceName, Pod = pod, LogLevel = logLevel,
          LogAnalyserAddress = logAnalyserAddress, LogAnalyserEnabled = logAnalyserEnabled,
          Console = console, LogFilePath = logFilePath\<rparr>, None))"


section \<open>Severity levels and their normalisation (logging.go, parseLogLevel)\<close>

datatype Level =
  DebugLevel | InfoLevel | WarnLevel | ErrorLevel | FatalLevel | PanicLevel | TraceLevel

text \<open>
  \<open>strings.ToUpper\<close> and \<open>strings.ToLower\<close> belong to the Go standard library. They
  map every rune of the UTF-8 string through the simple Unicode case mapping. On the
  bytes of the string this is: an ASCII letter changes case; the few non-ASCII runes
  whose image is an ASCII letter are replaced by that letter (upper case: U+0131,
  dotless i, bytes C4 B1, becomes \<open>I\<close>, and U+017F, long s, bytes C5 BF, becomes \<open>S\<close>;
  lower case: U+0130, capital I with dot, bytes C4 B0, becomes \<open>i\<close>, and U+212A, the
  Kelvin sign, bytes E2 84 AA, becomes \<open>k\<close>); every other non-ASCII rune, and every
  byte that is not valid UTF-8, has an image without ASCII bytes, which is all that a
  comparison with an ASCII literal can see, so the model keeps those bytes as they are.
\<close>

definition upperByte :: "char \<Rightarrow> char" where
  "upperByte c =
     (let n = (of_char c :: nat) in if 97 \<le> n \<and> n \<le> 122 then char_of (n - 32) else c)"

definition lowerByte :: "char \<Rightarrow> char" where
  "lowerByte c =
     (let n = (of_char c :: nat) in if 65 \<le> n \<and> n \<le> 90 then char_of (n + 32) else c)"

fun ToUpper :: "string \<Rightarrow> string" where
  "ToUpper (c # d # cs) =
     (if c = CHR 0xC4 \<and> d = CHR 0xB1 then CHR ''I'' # ToUpper cs
      else if c = CHR 0xC5 \<and> d = CHR 0xBF then CHR ''S'' # ToUpper cs
      else upperByte c # ToUpper (d # cs))"
| "ToUpper [c] = [upperByte c]"
| "ToUpper [] = []"

fun ToLower :: "string \<Rightarrow> string" where
  "ToLower (c # d # e # cs) =
     (if c = CHR 0xC4 \<and> d = CHR 0xB0 then CHR ''i'' # ToLower (e # cs)
      else if c = CHR 0xE2 \<and> d = CHR 0x84 \<and> e = CHR 0xAA then CHR ''k'' # ToLower cs
      else lowerByte c # ToLower (d # e # cs))"
| "ToLower [c, d] =
     (if c = CHR 0xC4 \<and> d = CHR 0xB0 then [CHR ''i''] else [lowerByte c, lowerByte d])"
| "ToLower [c] = [lowerByte c]"
| "ToLower [] = []"

definition parseLogLevel :: "string \<Rightarrow> Level" where
  "parseLogLevel level =
     (let u = ToUpper level in
      if u = ''DEBUG'' then DebugLevel
      else if u = ''INFO'' then InfoLevel
      else if u = ''WARN'' then WarnLevel
      else if u = ''ERROR'' then ErrorLevel
      else if u = ''FATAL'' then FatalLevel
      else if u = ''PANIC'' then PanicLevel
      else if u = ''TRACE'' then TraceLevel
      else InfoLevel)"

text \<open>
  The \<open>InitLogger\<close> of \<open>logging.go\<close> proper does not call \<open>parseLogLevel\<close>: it has the
  switch inline, on \<open>strings.ToLower(config.LogLevel)\<close> (lines 85 to 104), in this
  order of cases. In everything else it is the \<open>InitLogger\<close> modelled below.
\<close>

definition logLevel_switch :: "string \<Rightarrow> Level" where
  "logLevel_switch level =
     (let l = ToLower level in
      if l = ''debug'' then DebugLevel
      else if l = ''info'' then InfoLevel
      else if l = ''warn'' then WarnLevel
      else if l = ''error'' then ErrorLevel
      else if l = ''fatal'' then FatalLevel
      else if l = ''panic'' then PanicLevel
      else if l = ''trace'' then TraceLevel
      else InfoLevel)"

text \<open>
  The level table in the words of the specification: the lower-case name of each of the
  seven levels, and the info level for every other string.
\<close>

definition levelOfName :: "string \<Rightarrow> Level" where
  "levelOfName n =
     (if n = ''trace'' then TraceLevel
      else if n = ''debug'' then DebugLevel
      else if n = ''info'' then InfoLevel
      else if n = ''warn'' then WarnLevel
      else if n = ''error'' then ErrorLevel
      else if n = ''fatal'' then FatalLevel
      else if n = ''panic'' then PanicLevel
      else InfoLevel)"

definition isASCII :: "string \<Rightarrow> bool" where
  "isASCII s = list_all (\<lambda>c. (of_char c :: nat) < 128) s"

section \<open>The process-wide logger (logging.go)\<close>

text \<open>
  The logging engine (zerolog), the file system and the network are collaborators of
  the facade. What the facade hands to them is kept as data: a writer names its
  destination, a logger is its context fields, its minimum level and its writer, and an
  event is the level and the fields collected so far. The engine gives a nil event for
  a level that the logger has switched off; a nil event is \<open>None\<close>.
\<close>

datatype conn = Conn string string

datatype writer =
  Stdout
| Stderr
| FileWriter string
| LogstashWriter conn
| MultiWriter "writer list"

text \<open>A value of Go's \<open>interface{}\<close>, as far as the facade can tell values apart.\<close>

datatype iface = StringV string | ErrorV error | IntV int | BoolV bool | NilV

text \<open>The type assertion \<open>v.(string)\<close> in its two-result form: it never panics.\<close>

fun asString :: "iface \<Rightarrow> string option" where
  "asString (StringV s) = Some s"
| "asString _ = None"

datatype field =
  StrField string string
| InterfaceField string iface
| ErrField error
| IntField string int
| TimestampField
| CallerField nat

record Event =
  ev_level :: Level
  ev_fields :: "field list"

record Entry =
  entry_level :: Level
  entry_fields :: "field list"
  entry_message :: string

record Logger =
  ctx :: "field list"
  minLevel :: Level
  out :: writer

text \<open>
  The package-level variables: \<open>initialized\<close>, \<open>zerolog.TimeFieldFormat\<close> and
  \<open>log.Logger\<close>. \<open>emitted\<close> is the trace of the records the engine has written, each
  with the logger that wrote it (so with the sinks it went to), oldest first.
\<close>

record State =
  initialized :: bool
  zerolog_TimeFieldFormat :: string
  log_Logger :: Logger
  emitted :: "(Logger \<times> Entry) list"

text \<open>The operating system as the facade sees it: which opens and dials fail, and the pid.\<close>

record Env =
  openError :: "string \<Rightarrow> error option"
  dialError :: "string \<Rightarrow> string \<Rightarrow> error option"
  os_Getpid :: int

datatype exit = os_Exit int State

datatype panic = IndexOutOfRange | NilPointerDereference

definition time_RFC3339 :: string where
  "time_RFC3339 = ''2006-01-02T15:04:05Z07:00''"

definition os_OpenFile :: "Env \<Rightarrow> string \<Rightarrow> error + writer" where
  "os_OpenFile env path =
     (case openError env path of Some err \<Rightarrow> Inl err | None \<Rightarrow> Inr (FileWriter path))"

definition net_Dial :: "Env \<Rightarrow> string \<Rightarrow> string \<Rightarrow> error + conn" where
  "net_Dial env network address =
     (case dialError env network address of
        Some err \<Rightarrow> Inl err
      | None \<Rightarrow> Inr (Conn network address))"

definition NewLogstashWriter :: "Env \<Rightarrow> string \<Rightarrow> string \<Rightarrow> error + writer" where
  "NewLogstashWriter env network address =
     (case net_Dial env network address of
        Inl err \<Rightarrow> Inl err
      | Inr c \<Rightarrow> Inr (LogstashWriter c))"

subsection \<open>Events\<close>

text \<open>
  The numbers zerolog gives its levels, and its test \<open>Logger.should\<close>: an event of level
  \<open>lvl\<close> is enabled on a logger unless \<open>lvl\<close> is below the logger's level. (The test
  also reads the engine's global level and sampler; the engine sets the global level
  to trace, the lowest, when it is loaded and installs no sampler, and the facade
  changes neither, so they switch nothing off.)
\<close>

fun levelNum :: "Level \<Rightarrow> int" where
  "levelNum TraceLevel = - 1"
| "levelNum DebugLevel = 0"
| "levelNum InfoLevel = 1"
| "levelNum WarnLevel = 2"
| "levelNum ErrorLevel = 3"
| "levelNum FatalLevel = 4"
| "levelNum PanicLevel = 5"

definition Logger_should :: "Logger \<Rightarrow> Level \<Rightarrow> bool" where
  "Logger_should l lvl = (if levelNum lvl < levelNum (minLevel l) then False else True)"

text \<open>
  \<open>log.WithLevel\<close>, \<open>log.Warn\<close> and \<open>log.Fatal\<close> start an event on the global logger, and
  give nil when the level is not enabled. The methods of a nil event do nothing.
\<close>

definition log_WithLevel :: "State \<Rightarrow> Level \<Rightarrow> Event option" where
  "log_WithLevel s lvl =
     (if Logger_should (log_Logger s) lvl then Some \<lparr>ev_level = lvl, ev_fields = []\<rparr>
      else None)"

definition log_Warn :: "State \<Rightarrow> Event option" where
  "log_Warn s = log_WithLevel s WarnLevel"

definition log_Fatal :: "State \<Rightarrow> Event option" where
  "log_Fatal s = log_WithLevel s FatalLevel"

definition Event_Str :: "Event option \<Rightarrow> string \<Rightarrow> string \<Rightarrow> Event option" where
  "Event_Str e k v =
     (case e of None \<Rightarrow> None
      | Some ev \<Rightarrow> Some (ev\<lparr>ev_fields := ev_fields ev @ [StrField k v]\<rparr>))"

definition Event_Interface :: "Event option \<Rightarrow> string \<Rightarrow> iface \<Rightarrow> Event option" where
  "Event_Interface e k v =
     (case e of None \<Rightarrow> None
      | Some ev \<Rightarrow> Some (ev\<lparr>ev_fields := ev_fields ev @ [InterfaceField k v]\<rparr>))"

definition Event_Err :: "Event option \<Rightarrow> error \<Rightarrow> Event option" where
  "Event_Err e err =
     (case e of None \<Rightarrow> None
      | Some ev \<Rightarrow> Some (ev\<lparr>ev_fields := ev_fields ev @ [ErrField err]\<rparr>))"

text \<open>\<open>Msg\<close> writes the record of an enabled event through the global logger.\<close>

definition Msg :: "Event option \<Rightarrow> string \<Rightarrow> State \<Rightarrow> State" where
  "Msg e m s =
     (case e of None \<Rightarrow> s
      | Some ev \<Rightarrow>
          s\<lparr>emitted := emitted s @
              [(log_Logger s,
                \<lparr>entry_level = ev_level ev, entry_fields = ev_fields ev, entry_message = m\<rparr>)]\<rparr>)"

text \<open>
  \<open>log.Fatal().Err(err).Msg(m)\<close>: the record is written if the fatal level is enabled,
  and the process exits with status 1 in either case.
\<close>

definition log_Fatal_Err_Msg :: "error \<Rightarrow> string \<Rightarrow> State \<Rightarrow> exit" where
  "log_Fatal_Err_Msg err m s = os_Exit 1 (Msg (Event_Err (log_Fatal s) err) m s)"

subsection \<open>InitLogger\<close>

definition Logger_Output :: "Logger \<Rightarrow> writer \<Rightarrow> Logger" where
  "Logger_Output l w = l\<lparr>out := w\<rparr>"

definition zerolog_New :: "writer \<Rightarrow> Logger" where
  "zerolog_New w = \<lparr>ctx = [], minLevel = TraceLevel, out = w\<rparr>"

text \<open>
  The package-level variables when the process starts: the engine's global logger writes
  to standard error with a timestamp, at the trace level, and nothing has been logged.
\<close>

definition State_start :: State where
  "State_start =
     \<lparr>initialized = False, zerolog_TimeFieldFormat = time_RFC3339,
      log_Logger = (zerolog_New Stderr)\<lparr>ctx := [TimestampField]\<rparr>, emitted = []\<rparr>"

definition warn_already_initialized :: string where
  "warn_already_initialized = ''Logger already initialized, skipping re-initialization''"

text \<open>The second block of \<open>InitLogger\<close>: the file sink.\<close>

definition addFile :: "Env \<Rightarrow> Config \<Rightarrow> writer list \<times> State \<Rightarrow> exit + writer list \<times> State" where
  "addFile env config ws =
     (case ws of (writers, s) \<Rightarrow>
        if LogFilePath config \<noteq> [] then
          (case os_OpenFile env (LogFilePath config) of
             Inl err \<Rightarrow> Inl (log_Fatal_Err_Msg err ''Failed to open log file'' s)
           | Inr file \<Rightarrow>
               Inr (writers @ [file], s\<lparr>log_Logger := Logger_Output (log_Logger s) file\<rparr>))
        else Inr (writers, s))"

text \<open>The third block: the remote collector.\<close>

definition addLogstash :: "Env \<Rightarrow> Config \<Rightarrow> writer list \<times> State \<Rightarrow> exit + writer list \<times> State" where
  "addLogstash env config ws =
     (case ws of (writers, s) \<Rightarrow>
        if LogAnalyserEnabled config then
          (case NewLogstashWriter env ''tcp'' (LogAnalyserAddress config) of
             Inl err \<Rightarrow> Inl (log_Fatal_Err_Msg err ''Failed to create Logstash writer'' s)
           | Inr logstashWriter \<Rightarrow> Inr (writers @ [logstashWriter], s))
        else Inr (writers, s))"

definition InitLogger :: "Env \<Rightarrow> Config \<Rightarrow> State \<Rightarrow> exit + State" where
  "InitLogger env config s =
     (if initialized s then
        Inr (Msg (log_Warn s) warn_already_initialized s)
      else
        let s = s\<lparr>zerolog_TimeFieldFormat := time_RFC3339\<rparr>;
            writers = [];
            writers = (if Console config then writers @ [Stdout] else writers)
        in case addFile env config (writers, s) of
             Inl x \<Rightarrow> Inl x
           | Inr ws \<Rightarrow>
              (case addLogstash env config ws of
                 Inl x \<Rightarrow> Inl x
               | Inr (writers, s) \<Rightarrow>
                   let multiWriter = (if length writers > 0 then MultiWriter writers else Stdout);
                       logLevel = parseLogLevel (LogLevel config);
                       l = zerolog_New multiWriter;
                       l = l\<lparr>ctx := [TimestampField,
                                      StrField ''service'' (ServiceName config),
                                      StrField ''pod'' (Pod config),
                                      IntField ''pid'' (os_Getpid env),
                                      CallerField 3]\<rparr>;
                       l = l\<lparr>minLevel := logLevel\<rparr>;
                       s = s\<lparr>log_Logger := Logger_Output l multiWriter\<rparr>
                   in Inr (s\<lparr>initialized := True\<rparr>)))"

text \<open>
  The sinks in the order the specification names them, and whether the configuration
  switches each of them on.
\<close>

definition sinkOrder :: "Config \<Rightarrow> writer list" where
  "sinkOrder config =
     [Stdout, FileWriter (LogFilePath config),
      LogstashWriter (Conn ''tcp'' (LogAnalyserAddress config))]"

fun sinkActive :: "Config \<Rightarrow> writer \<Rightarrow> bool" where
  "sinkActive config Stdout = Console config"
| "sinkActive config (FileWriter p) = (LogFilePath config \<noteq> [])"
| "sinkActive config (LogstashWriter c) = LogAnalyserEnabled config"
| "sinkActive config (MultiWriter ws) = False"
| "sinkActive config Stderr = False"

subsection \<open>Leveled logging with untyped fields\<close>

text \<open>
  Indexing a slice panics out of range; the model says so. The loop of \<open>logWithFields\<close>
  keeps the source's index variable.
\<close>

definition index :: "'a list \<Rightarrow> nat \<Rightarrow> panic + 'a" where
  "index xs i = (if i < length xs then Inr (xs ! i) else Inl IndexOutOfRange)"

definition fields_error :: string where
  "fields_error = ''fields_error''"

function fieldsLoop :: "iface list \<Rightarrow> nat \<Rightarrow> Event option \<Rightarrow> panic + Event option" where
  "fieldsLoop flds i event =
     (if i < length flds then
        (case index flds i of
           Inl p \<Rightarrow> Inl p
         | Inr a \<Rightarrow>
            (case index flds (i + 1) of
               Inl p \<Rightarrow> Inl p
             | Inr b \<Rightarrow>
                (case (asString a, asString b) of
                   (Some key, Some val) \<Rightarrow> fieldsLoop flds (i + 2) (Event_Str event key val)
                 | _ \<Rightarrow>
                    Inr (Event_Interface event fields_error
                           (StringV ''key-value pairs must be strings'')))))
      else Inr event)"
  by pat_completeness auto
termination
  by (relation "measure (\<lambda>(flds, i, event). length flds - i)") auto

declare fieldsLoop.simps [simp del]

definition logWithFields :: "Level \<Rightarrow> string \<Rightarrow> iface list \<Rightarrow> State \<Rightarrow> panic + State" where
  "logWithFields level message flds s =
     (let event = log_WithLevel s level in
      case (if length flds mod 2 \<noteq> 0 then
              Inr (Event_Interface event fields_error
                     (StringV ''uneven number of key-value pairs''))
            else fieldsLoop flds 0 event) of
        Inl p \<Rightarrow> Inl p
      | Inr event \<Rightarrow> Inr (Msg event message s))"

text \<open>
  Vocabulary for the field list of a call: pair \<open>j\<close> is made of the elements \<open>2j\<close> and
  \<open>2j + 1\<close>; it is well-formed when both are strings, and then it is attached as one
  string field.
\<close>

definition pairOK :: "iface list \<Rightarrow> nat \<Rightarrow> bool" where
  "pairOK flds j =
     (asString (flds ! (2 * j)) \<noteq> None \<and> asString (flds ! (2 * j + 1)) \<noteq> None)"

definition strPair :: "iface list \<Rightarrow> nat \<Rightarrow> field" where
  "strPair flds j =
     StrField (the (asString (flds ! (2 * j)))) (the (asString (flds ! (2 * j + 1))))"

text \<open>The number of well-formed pairs at the head of a field list.\<close>

fun goodPairs :: "iface list \<Rightarrow> nat" where
  "goodPairs (a # b # rest) =
     (if asString a \<noteq> None \<and> asString b \<noteq> None then Suc (goodPairs rest) else 0)"
| "goodPairs [a] = 0"
| "goodPairs [] = 0"

definition diagnostic :: "string \<Rightarrow> field" where
  "diagnostic d = InterfaceField fields_error (StringV d)"

text \<open>The seven leveled calls.\<close>

definition Info :: "string \<Rightarrow> iface list \<Rightarrow> State \<Rightarrow> panic + State" where
  "Info message flds s = logWithFields InfoLevel message flds s"

definition Debug :: "string \<Rightarrow> iface list \<Rightarrow> State \<Rightarrow> panic + State" where
  "Debug message flds s = logWithFields DebugLevel message flds s"

definition Warn :: "string \<Rightarrow> iface list \<Rightarrow> State \<Rightarrow> panic + State" where
  "Warn message flds s = logWithFields WarnLevel message flds s"

definition Error :: "string \<Rightarrow> iface list \<Rightarrow> State \<Rightarrow> panic + State" where
  "Error message flds s = logWithFields ErrorLevel message flds s"

definition Fatal :: "string \<Rightarrow> iface list \<Rightarrow> State \<Rightarrow> panic + State" where
  "Fatal message flds s = logWithFields FatalLevel message flds s"

definition Panic :: "string \<Rightarrow> iface list \<Rightarrow> State \<Rightarrow> panic + State" where
  "Panic message flds s = logWithFields PanicLevel message flds s"

definition Trace :: "string \<Rightarrow> iface list \<Rightarrow> State \<Rightarrow> panic + State" where
  "Trace message flds s = logWithFields TraceLevel message flds s"

text \<open>The leveled call of each level, to speak of the seven at once.\<close>

fun leveled :: "Level \<Rightarrow> string \<Rightarrow> iface list \<Rightarrow> State \<Rightarrow> panic + State" where
  "leveled TraceLevel message flds s = Trace message flds s"
| "leveled DebugLevel message flds s = Debug message flds s"
| "leveled InfoLevel message flds s = Info message flds s"
| "leveled WarnLevel message flds s = Warn message flds s"
| "leveled ErrorLevel message flds s = Error message flds s"
| "leveled FatalLevel message flds s = Fatal message flds s"
| "leveled PanicLevel message flds s = Panic message flds s"

text \<open>
  An \<open>error\<close> argument is an interface and may be nil (\<open>None\<close>); calling \<open>err.Error()\<close>
  on nil panics. \<open>append(fields, "error", errors.WithStack(err))\<close> puts the key and the
  wrapped error at the end of the caller's fields.
\<close>

definition ErrorWithError :: "error option \<Rightarrow> iface list \<Rightarrow> State \<Rightarrow> panic + State" where
  "ErrorWithError err flds s =
     (case err of
        None \<Rightarrow> Inl NilPointerDereference
      | Some e \<Rightarrow>
          logWithFields ErrorLevel (error_Error e)
            (flds @ [StringV ''error'', ErrorV (errors_WithStack e)]) s)"

section \<open>Auxiliary facts\<close>

subsection \<open>Case mapping\<close>

text \<open>
  On ASCII strings both mappings work byte by byte. A string whose upper-case form is an
  ASCII word without \<open>I\<close> and \<open>S\<close> is itself ASCII, and so is one whose lower-case form
  is an ASCII word without \<open>i\<close> and \<open>k\<close>: those are the only letters a non-ASCII rune
  can turn into. Hence the five level names without the letter i are matched by the
  upper-case form exactly when they are matched by the lower-case form.
\<close>

lemma lowerByte_upperByte: "lowerByte (upperByte c) = lowerByte c"
  by (auto simp add: lowerByte_def upperByte_def Let_def)

lemma upperByte_lowerByte: "upperByte (lowerByte c) = upperByte c"
  by (auto simp add: lowerByte_def upperByte_def Let_def)

lemma ToUpper_ascii: "isASCII s \<Longrightarrow> ToUpper s = map upperByte s"
  by (induction s rule: ToUpper.induct) (auto simp: isASCII_def)

lemma ToLower_ascii: "isASCII s \<Longrightarrow> ToLower s = map lowerByte s"
  by (induction s rule: ToLower.induct) (auto simp: isASCII_def)

lemma case_fold_iff:
  assumes "map lowerByte u = l" "map upperByte l = u"
  shows "map upperByte s = u \<longleftrightarrow> map lowerByte s = l"
proof
  assume "map upperByte s = u"
  then have "map lowerByte (map upperByte s) = l" using assms(1) by simp
  then show "map lowerByte s = l" by (simp add: lowerByte_upperByte comp_def)
next
  assume "map lowerByte s = l"
  then have "map upperByte (map lowerByte s) = u" using assms(2) by simp
  then show "map upperByte s = u" by (simp add: upperByte_lowerByte comp_def)
qed

lemma level_names:
  "map upperByte s = ''DEBUG'' \<longleftrightarrow> map lowerByte s = ''debug''"
  "map upperByte s = ''INFO'' \<longleftrightarrow> map lowerByte s = ''info''"
  "map upperByte s = ''WARN'' \<longleftrightarrow> map lowerByte s = ''warn''"
  "map upperByte s = ''ERROR'' \<longleftrightarrow> map lowerByte s = ''error''"
  "map upperByte s = ''FATAL'' \<longleftrightarrow> map lowerByte s = ''fatal''"
  "map upperByte s = ''PANIC'' \<longleftrightarrow> map lowerByte s = ''panic''"
  "map upperByte s = ''TRACE'' \<longleftrightarrow> map lowerByte s = ''trace''"
  by (rule case_fold_iff; code_simp)+

lemma upperByte_ascii: "(of_char (upperByte c) :: nat) < 128 \<Longrightarrow> (of_char c :: nat) < 128"
  by (auto simp: upperByte_def Let_def split: if_splits)

lemma lowerByte_ascii: "(of_char (lowerByte c) :: nat) < 128 \<Longrightarrow> (of_char c :: nat) < 128"
  by (auto simp: lowerByte_def Let_def split: if_splits)

lemma ToUpper_ascii_image:
  assumes "ToUpper s = u" "isASCII u" "CHR ''I'' \<notin> set u" "CHR ''S'' \<notin> set u"
  shows "isASCII s"
  using assms
proof (induction s arbitrary: u rule: ToUpper.induct)
  case (1 c d cs)
  then show ?case
    by (auto simp: isASCII_def upperByte_ascii split: if_splits)
next
  case (2 c)
  then show ?case by (auto simp: isASCII_def upperByte_ascii)
next
  case 3
  then show ?case by (simp add: isASCII_def)
qed

lemma ToLower_ascii_image:
  assumes "ToLower s = l" "isASCII l" "CHR ''i'' \<notin> set l" "CHR ''k'' \<notin> set l"
  shows "isASCII s"
  using assms
proof (induction s arbitrary: l rule: ToLower.induct)
  case (1 c d e cs)
  then show ?case
    by (auto simp: isASCII_def lowerByte_ascii split: if_splits)
next
  case (2 c d)
  then show ?case by (auto simp: isASCII_def lowerByte_ascii split: if_splits)
next
  case (3 c)
  then show ?case by (auto simp: isASCII_def lowerByte_ascii)
next
  case 4
  then show ?case by (simp add: isASCII_def)
qed

lemma fold_iff_general:
  assumes u: "isASCII u" "CHR ''I'' \<notin> set u" "CHR ''S'' \<notin> set u"
    and l: "isASCII l" "CHR ''i'' \<notin> set l" "CHR ''k'' \<notin> set l"
    and ul: "map lowerByte u = l" "map upperByte l = u"
  shows "ToUpper s = u \<longleftrightarrow> ToLower s = l"
proof
  assume a: "ToUpper s = u"
  from ToUpper_ascii_image[OF a u] have asc: "isASCII s" .
  with a show "ToLower s = l"
    using case_fold_iff[OF ul, of s] by (simp add: ToUpper_ascii ToLower_ascii)
next
  assume a: "ToLower s = l"
  from ToLower_ascii_image[OF a l] have asc: "isASCII s" .
  with a show "ToUpper s = u"
    using case_fold_iff[OF ul, of s] by (simp add: ToUpper_ascii ToLower_ascii)
qed

lemma level_names_general:
  "ToUpper s = ''DEBUG'' \<longleftrightarrow> ToLower s = ''debug''"
  "ToUpper s = ''WARN'' \<longleftrightarrow> ToLower s = ''warn''"
  "ToUpper s = ''ERROR'' \<longleftrightarrow> ToLower s = ''error''"
  "ToUpper s = ''FATAL'' \<longleftrightarrow> ToLower s = ''fatal''"
  "ToUpper s = ''TRACE'' \<longleftrightarrow> ToLower s = ''trace''"
  by (rule fold_iff_general; code_simp)+

lemma logLevel_switch_spec: "logLevel_switch s = levelOfName (ToLower s)"
  by (auto simp: logLevel_switch_def levelOfName_def Let_def)

lemma parseLogLevel_exact:
  "parseLogLevel s =
     (if ToUpper s = ''PANIC'' then PanicLevel
      else if ToLower s = ''panic'' then InfoLevel
      else levelOfName (ToLower s))"
proof -
  note n = level_names_general[of s]
  show ?thesis
  proof (cases "ToUpper s = ''PANIC''")
    case True
    then show ?thesis by (simp add: parseLogLevel_def Let_def)
  next
    case False
    consider (five) "ToUpper s = ''DEBUG'' \<or> ToUpper s = ''WARN'' \<or> ToUpper s = ''ERROR''
          \<or> ToUpper s = ''FATAL'' \<or> ToUpper s = ''TRACE''"
      | (other) "ToUpper s \<noteq> ''DEBUG''" "ToUpper s \<noteq> ''WARN''" "ToUpper s \<noteq> ''ERROR''"
          "ToUpper s \<noteq> ''FATAL''" "ToUpper s \<noteq> ''TRACE''"
      by blast
    then show ?thesis
    proof cases
      case five
      then show ?thesis
        using n by (elim disjE) (simp_all add: parseLogLevel_def levelOfName_def Let_def)
    next
      case other
      with False have "parseLogLevel s = InfoLevel"
        by (simp add: parseLogLevel_def Let_def)
      moreover from other n have "ToLower s \<noteq> ''debug''" "ToLower s \<noteq> ''warn''"
        "ToLower s \<noteq> ''error''" "ToLower s \<noteq> ''fatal''" "ToLower s \<noteq> ''trace''"
        by simp_all
      then have "(if ToLower s = ''panic'' then InfoLevel else levelOfName (ToLower s)) = InfoLevel"
        by (simp add: levelOfName_def)
      ultimately show ?thesis using False by simp
    qed
  qed
qed

lemma parseLogLevel_agrees_iff:
  "parseLogLevel s = levelOfName (ToLower s) \<longleftrightarrow> (ToUpper s = ''PANIC'' \<longleftrightarrow> ToLower s = ''panic'')"
  unfolding parseLogLevel_exact by (auto simp: levelOfName_def)

subsection \<open>The field loop\<close>

text \<open>
  Started at pair \<open>k\<close>, the loop attaches the pairs \<open>k, \<dots>, n - 1\<close> and stops at the
  first ill-formed pair \<open>n\<close> with the diagnostic (induction on the distance \<open>n - k\<close>); on
  a nil event it does the same walk and returns nil. A well-formed field list is
  attached whole, with no diagnostic.
\<close>

lemma fieldsLoop_bad_pair:
  assumes "2 * k + 1 < length flds" "\<not> pairOK flds k"
  shows "fieldsLoop flds (2 * k) e =
      Inr (Event_Interface e fields_error (StringV ''key-value pairs must be strings''))"
  using assms
  by (subst fieldsLoop.simps) (auto simp: index_def pairOK_def split: option.splits)

lemma fieldsLoop_good_pair:
  assumes "2 * k + 1 < length flds" "pairOK flds k"
  shows "fieldsLoop flds (2 * k) e =
      fieldsLoop flds (2 * Suc k)
        (Event_Str e (the (asString (flds ! (2 * k)))) (the (asString (flds ! (2 * k + 1)))))"
  using assms
  by (subst fieldsLoop.simps) (auto simp: index_def pairOK_def split: option.splits)

lemma fieldsLoop_prefix:
  assumes "2 * n + 1 < length flds" "\<not> pairOK flds n"
    "\<forall>j. k \<le> j \<and> j < n \<longrightarrow> pairOK flds j" "k \<le> n"
  shows "fieldsLoop flds (2 * k) e =
      Inr (map_option (\<lambda>ev. ev\<lparr>ev_fields := ev_fields ev @ map (strPair flds) [k..<n] @
             [diagnostic ''key-value pairs must be strings'']\<rparr>) e)"
  using assms
proof (induction "n - k" arbitrary: k e)
  case 0
  then have "k = n" by simp
  with 0 show ?case
    by (simp add: fieldsLoop_bad_pair Event_Interface_def diagnostic_def split: option.splits)
next
  case (Suc d)
  then have lt: "k < n" and ok: "pairOK flds k" by auto
  from lt Suc.prems have b: "2 * k + 1 < length flds" by simp
  have ih: "fieldsLoop flds (2 * Suc k) e' =
      Inr (map_option (\<lambda>ev. ev\<lparr>ev_fields := ev_fields ev @ map (strPair flds) [Suc k..<n] @
             [diagnostic ''key-value pairs must be strings'']\<rparr>) e')" for e'
    using Suc.hyps(1)[of "Suc k" e'] Suc.hyps(2) Suc.prems lt by auto
  show ?case
    unfolding fieldsLoop_good_pair[OF b ok] ih
    using lt by (simp add: Event_Str_def upt_conv_Cons strPair_def split: option.splits)
qed

lemma logWithFields_odd:
  assumes "odd (length flds)"
  shows "logWithFields lv m flds s =
     Inr (if Logger_should (log_Logger s) lv then
            s\<lparr>emitted := emitted s @
              [(log_Logger s, \<lparr>entry_level = lv,
                  entry_fields = [diagnostic ''uneven number of key-value pairs''],
                  entry_message = m\<rparr>)]\<rparr>
          else s)"
  using assms
  by (simp add: logWithFields_def Msg_def Event_Interface_def log_WithLevel_def diagnostic_def
        odd_iff_mod_2_eq_one)

lemma logWithFields_even_bad:
  assumes "even (length flds)" "2 * i + 1 < length flds" "\<not> pairOK flds i"
    "\<forall>j<i. pairOK flds j"
  shows "logWithFields lv m flds s =
     Inr (if Logger_should (log_Logger s) lv then
            s\<lparr>emitted := emitted s @
              [(log_Logger s, \<lparr>entry_level = lv,
                  entry_fields = map (strPair flds) [0..<i] @
                     [diagnostic ''key-value pairs must be strings''],
                  entry_message = m\<rparr>)]\<rparr>
          else s)"
proof -
  have "fieldsLoop flds (2 * 0) (log_WithLevel s lv) =
      Inr (map_option (\<lambda>ev. ev\<lparr>ev_fields := ev_fields ev @ map (strPair flds) [0..<i] @
             [diagnostic ''key-value pairs must be strings'']\<rparr>) (log_WithLevel s lv))"
    using assms by (intro fieldsLoop_prefix) auto
  with assms(1) show ?thesis
    by (simp add: logWithFields_def Msg_def log_WithLevel_def)
qed

lemma fieldsLoop_all_ok:
  assumes "even (length flds)" "2 * k \<le> length flds"
    "\<forall>j. k \<le> j \<and> 2 * j + 1 < length flds \<longrightarrow> pairOK flds j"
  shows "fieldsLoop flds (2 * k) e =
      Inr (map_option (\<lambda>ev. ev\<lparr>ev_fields := ev_fields ev @
             map (strPair flds) [k..<length flds div 2]\<rparr>) e)"
  using assms
proof (induction "length flds div 2 - k" arbitrary: k e)
  case 0
  then have "\<not> 2 * k < length flds" by auto
  then show ?case using 0 by (subst fieldsLoop.simps) (cases e; auto)
next
  case (Suc d)
  then have lt: "k < length flds div 2" by simp
  with Suc.prems(1) have b: "2 * k + 1 < length flds" by (auto elim!: evenE)
  with Suc.prems have ok: "pairOK flds k" by simp
  have ih: "fieldsLoop flds (2 * Suc k) e' =
      Inr (map_option (\<lambda>ev. ev\<lparr>ev_fields := ev_fields ev @
             map (strPair flds) [Suc k..<length flds div 2]\<rparr>) e')" for e'
    using Suc.hyps(1)[of "Suc k" e'] Suc.hyps(2) Suc.prems b by auto
  show ?case
    unfolding fieldsLoop_good_pair[OF b ok] ih
    using lt by (simp add: Event_Str_def upt_conv_Cons strPair_def split: option.splits)
qed

lemma logWithFields_well_formed:
  assumes "even (length flds)" "\<forall>j. 2 * j + 1 < length flds \<longrightarrow> pairOK flds j"
  shows "logWithFields lv m flds s =
     Inr (if Logger_should (log_Logger s) lv then
            s\<lparr>emitted := emitted s @
              [(log_Logger s, \<lparr>entry_level = lv,
                  entry_fields = map (strPair flds) [0..<length flds div 2],
                  entry_message = m\<rparr>)]\<rparr>
          else s)"
proof -
  have "fieldsLoop flds (2 * 0) (log_WithLevel s lv) =
      Inr (map_option (\<lambda>ev. ev\<lparr>ev_fields := ev_fields ev @
             map (strPair flds) [0..<length flds div 2]\<rparr>) (log_WithLevel s lv))"
    using assms by (intro fieldsLoop_all_ok) auto
  with assms(1) show ?thesis
    by (simp add: logWithFields_def Msg_def log_WithLevel_def)
qed

lemma leveled_logWithFields:
  "leveled lv m flds s = logWithFields lv m flds s"
  by (cases lv)
    (simp_all add: Trace_def Debug_def Info_def Warn_def Error_def Fatal_def Panic_def)

lemma pairOK_Cons2: "pairOK (a # b # rest) (Suc j) = pairOK rest j"
  by (simp add: pairOK_def)

lemma pairOK_0: "pairOK (a # b # rest) 0 = (asString a \<noteq> None \<and> asString b \<noteq> None)"
  by (simp add: pairOK_def)

lemma goodPairs_first_bad:
  assumes "even (length flds)" "\<exists>j. 2 * j + 1 < length flds \<and> \<not> pairOK flds j"
  shows "2 * goodPairs flds + 1 < length flds \<and> \<not> pairOK flds (goodPairs flds) \<and>
         (\<forall>j<goodPairs flds. pairOK flds j)"
  using assms
proof (induction flds rule: goodPairs.induct)
  case (1 a b rest)
  show ?case
  proof (cases "asString a \<noteq> None \<and> asString b \<noteq> None")
    case False
    then show ?thesis by (auto simp: pairOK_0)
  next
    case True
    from "1.prems"(2) obtain j where j: "2 * j + 1 < length (a # b # rest)" "\<not> pairOK (a # b # rest) j"
      by blast
    with True obtain j' where j': "j = Suc j'" by (cases j) (auto simp: pairOK_0)
    with j have "2 * j' + 1 < length rest \<and> \<not> pairOK rest j'" by (simp add: pairOK_Cons2)
    then have ex: "\<exists>j. 2 * j + 1 < length rest \<and> \<not> pairOK rest j" by blast
    from "1.prems"(1) have ev: "even (length rest)" by simp
    note ih = "1.IH"[OF True ev ex]
    have "\<forall>j<Suc (goodPairs rest). pairOK (a # b # rest) j"
    proof (intro allI impI)
      fix j assume "j < Suc (goodPairs rest)"
      then show "pairOK (a # b # rest) j"
        using ih True by (cases j) (auto simp: pairOK_0 pairOK_Cons2)
    qed
    with ih True show ?thesis by (simp add: pairOK_Cons2)
  qed
qed auto

subsection \<open>Initialisation\<close>

text \<open>
  A call on an initialised process; the first call when every needed open and dial
  succeeds; the first call when the log file cannot be opened; and what every returning
  call leaves behind.
\<close>

lemma InitLogger_again:
  "initialized s \<Longrightarrow>
   InitLogger env config s =
     Inr (if Logger_should (log_Logger s) WarnLevel then
            s\<lparr>emitted := emitted s @
              [(log_Logger s, \<lparr>entry_level = WarnLevel, entry_fields = [],
                               entry_message = warn_already_initialized\<rparr>)]\<rparr>
          else s)"
  by (simp add: InitLogger_def Msg_def log_Warn_def log_WithLevel_def)

lemma addFile_ok:
  assumes "LogFilePath config \<noteq> [] \<longrightarrow> openError env (LogFilePath config) = None"
  shows "addFile env config (ws, s) =
    (if LogFilePath config \<noteq> [] then
       Inr (ws @ [FileWriter (LogFilePath config)],
            s\<lparr>log_Logger := Logger_Output (log_Logger s) (FileWriter (LogFilePath config))\<rparr>)
     else Inr (ws, s))"
  using assms by (simp add: addFile_def os_OpenFile_def)

lemma addLogstash_ok:
  assumes "LogAnalyserEnabled config \<longrightarrow> dialError env ''tcp'' (LogAnalyserAddress config) = None"
  shows "addLogstash env config (ws, s) =
    (if LogAnalyserEnabled config then
       Inr (ws @ [LogstashWriter (Conn ''tcp'' (LogAnalyserAddress config))], s)
     else Inr (ws, s))"
  using assms by (simp add: addLogstash_def NewLogstashWriter_def net_Dial_def)

lemma InitLogger_fresh:
  assumes "\<not> initialized s"
    and "LogFilePath config \<noteq> [] \<longrightarrow> openError env (LogFilePath config) = None"
    and "LogAnalyserEnabled config \<longrightarrow> dialError env ''tcp'' (LogAnalyserAddress config) = None"
  shows "InitLogger env config s =
     Inr (s\<lparr>initialized := True, zerolog_TimeFieldFormat := time_RFC3339,
            log_Logger :=
              \<lparr>ctx = [TimestampField, StrField ''service'' (ServiceName config),
                      StrField ''pod'' (Pod config), IntField ''pid'' (os_Getpid env),
                      CallerField 3],
               minLevel = parseLogLevel (LogLevel config),
               out = (if filter (sinkActive config) (sinkOrder config) = [] then Stdout
                      else MultiWriter (filter (sinkActive config) (sinkOrder config)))\<rparr>\<rparr>)"
  using assms(1)
  by (simp add: InitLogger_def Let_def addFile_ok[OF assms(2)] addLogstash_ok[OF assms(3)]
        sinkOrder_def Logger_Output_def zerolog_New_def)

lemma InitLogger_open_fails:
  assumes "\<not> initialized s" "LogFilePath config \<noteq> []"
    "openError env (LogFilePath config) = Some err"
  shows "InitLogger env config s =
     Inl (os_Exit 1
       (if Logger_should (log_Logger s) FatalLevel then
          s\<lparr>zerolog_TimeFieldFormat := time_RFC3339,
            emitted := emitted s @
              [(log_Logger s, \<lparr>entry_level = FatalLevel, entry_fields = [ErrField err],
                               entry_message = ''Failed to open log file''\<rparr>)]\<rparr>
        else s\<lparr>zerolog_TimeFieldFormat := time_RFC3339\<rparr>))"
  using assms
  by (simp add: InitLogger_def Let_def addFile_def os_OpenFile_def log_Fatal_Err_Msg_def
        log_Fatal_def log_WithLevel_def Event_Err_def Msg_def)

lemma InitLogger_result:
  assumes "InitLogger env config s = Inr s'"
  shows "initialized s' \<and> (\<not> initialized s \<longrightarrow> minLevel (log_Logger s') = parseLogLevel (LogLevel config))"
proof (cases "initialized s")
  case True
  with assms show ?thesis by (auto simp: InitLogger_again split: if_splits)
next
  case False
  with assms show ?thesis
    by (auto simp: InitLogger_def Let_def Logger_Output_def zerolog_New_def
          split: sum.splits prod.splits)
qed

lemma Logger_should_Warn:
  "Logger_should l WarnLevel \<longleftrightarrow> minLevel l \<in> {TraceLevel, DebugLevel, InfoLevel, WarnLevel}"
  by (cases "minLevel l") (simp_all add: Logger_should_def)

section \<open>The claims\<close>

subsection \<open>Configuration builder\<close>

text \<open>
  C1 (as amended). The destination check of \<open>NewLogger\<close> reads the console flag, the
  file path and the analyser \<^emph>\<open>address\<close>; the analyser flag plays no part in it. When
  the console is off and both the file path and the analyser address are empty,
  \<open>NewLogger\<close> returns the zero-value Config with the destination error; when the
  console is on, or the file path or the analyser address is non-empty, the error
  returned, if any, is not the destination error.
\<close>

theorem NewLogger_destination_check:
  "(\<not> console \<and> logFilePath = [] \<and> logAnalyserAddress = [] \<longrightarrow>
      NewLogger serviceName console pod logFilePath logAnalyserAddress logLevel logAnalyserEnabled
        = (Config_zero, Some err_no_destination))
   \<and> (console \<or> logFilePath \<noteq> [] \<or> logAnalyserAddress \<noteq> [] \<longrightarrow>
      snd (NewLogger serviceName console pod logFilePath logAnalyserAddress logLevel
             logAnalyserEnabled) \<noteq> Some err_no_destination)"
  by (simp add: NewLogger_def err_no_destination_def err_no_identity_def)

theorem NewLogger_destination_check_witness:
  "NewLogger ''svc'' False ''pod-1'' [] [] ''info'' False = (Config_zero, Some err_no_destination)
   \<and> snd (NewLogger ''svc'' False ''pod-1'' [] ''collector:5000'' ''info'' False)
       \<noteq> Some err_no_destination"
  using NewLogger_destination_check[of False "[]" "[]" "''svc''" "''pod-1''" "''info''" False]
    NewLogger_destination_check[of False "[]" "''collector:5000''" "''svc''" "''pod-1''"
      "''info''" False]
  by simp

text \<open>
  C1 as stated fails in both halves. With the console off, no file path and the analyser
  flag off, an analyser address alone makes \<open>NewLogger\<close> succeed with a populated Config;
  and with the analyser flag on but no address (console off, no file path) the
  destination check fails.
\<close>

theorem NewLogger_enabled_flag_counterexample:
  "NewLogger ''svc'' False ''pod-1'' [] ''collector:5000'' ''info'' False =
     (\<lparr>ServiceName = ''svc'', Pod = ''pod-1'', LogLevel = ''info'',
       LogAnalyserAddress = ''collector:5000'', LogAnalyserEnabled = False,
       Console = False, LogFilePath = []\<rparr>, None)
   \<and> NewLogger ''svc'' False ''pod-1'' [] [] ''info'' True =
     (Config_zero, Some err_no_destination)"
  by (simp add: NewLogger_def)

text \<open>
  C7. Whenever both the service name and the pod are empty, \<open>NewLogger\<close> returns an
  error (a non-nil second component), whatever the console flag, the file path, the
  analyser address, the analyser flag and the level are.
\<close>

theorem NewLogger_empty_identity_is_error:
  "\<exists>e. snd (NewLogger [] console [] logFilePath logAnalyserAddress logLevel logAnalyserEnabled)
         = Some e"
  by (simp add: NewLogger_def)

text \<open>
  C8 (as amended). \<open>NewLogger\<close> runs its destination check (console, file path,
  analyser address) before its identity check: whenever the destination check fails the
  destination error is returned, whatever the service name and pod are; the identity
  error is returned only when the destination check has passed; and every error comes
  with the zero-value Config. \<open>NewLogger\<close> touches no package-level variable, which is
  why its model has no state argument.
\<close>

theorem NewLogger_validation_order:
  "(\<not> console \<and> logFilePath = [] \<and> logAnalyserAddress = [] \<longrightarrow>
      NewLogger serviceName console pod logFilePath logAnalyserAddress logLevel logAnalyserEnabled
        = (Config_zero, Some err_no_destination))
   \<and> ((console \<or> logFilePath \<noteq> [] \<or> logAnalyserAddress \<noteq> []) \<and> serviceName = [] \<and> pod = [] \<longrightarrow>
      NewLogger serviceName console pod logFilePath logAnalyserAddress logLevel logAnalyserEnabled
        = (Config_zero, Some err_no_identity))
   \<and> (snd (NewLogger serviceName console pod logFilePath logAnalyserAddress logLevel
              logAnalyserEnabled) \<noteq> None \<longrightarrow>
      fst (NewLogger serviceName console pod logFilePath logAnalyserAddress logLevel
              logAnalyserEnabled) = Config_zero)"
  by (simp add: NewLogger_def)

theorem NewLogger_validation_order_witness:
  "NewLogger [] False [] [] [] ''info'' True = (Config_zero, Some err_no_destination)
   \<and> NewLogger [] True [] [] [] ''info'' False = (Config_zero, Some err_no_identity)
   \<and> fst (NewLogger [] True [] [] [] ''info'' False) = Config_zero
   \<and> err_no_destination \<noteq> err_no_identity"
  using NewLogger_validation_order[of False "[]" "[]" "[]" "[]" "''info''" True]
    NewLogger_validation_order[of True "[]" "[]" "[]" "[]" "''info''" False]
  by (simp add: err_no_destination_def err_no_identity_def)

text \<open>
  C8 as stated, with the destination invariant of the specification (console, file
  path, analyser flag): here both invariants are violated, yet the identity error is
  the one returned, because the analyser address satisfies the check the code makes.
\<close>

theorem NewLogger_order_counterexample:
  "NewLogger [] False [] [] ''collector:5000'' ''info'' False = (Config_zero, Some err_no_identity)
   \<and> err_no_identity \<noteq> err_no_destination"
  by (simp add: NewLogger_def err_no_destination_def err_no_identity_def)

text \<open>
  C9 (as amended). When the console is on or the file path or the analyser address is
  non-empty, and the service name or the pod is non-empty, \<open>NewLogger\<close> returns a nil
  error and a Config whose seven fields are the arguments as given; the level string is
  stored as it is.
\<close>

theorem NewLogger_success:
  assumes "console \<or> logFilePath \<noteq> [] \<or> logAnalyserAddress \<noteq> []"
    and "serviceName \<noteq> [] \<or> pod \<noteq> []"
  shows "NewLogger serviceName console pod logFilePath logAnalyserAddress logLevel logAnalyserEnabled
     = (\<lparr>ServiceName = serviceName, Pod = pod, LogLevel = logLevel,
         LogAnalyserAddress = logAnalyserAddress, LogAnalyserEnabled = logAnalyserEnabled,
         Console = console, LogFilePath = logFilePath\<rparr>, None)"
  using assms by (auto simp add: NewLogger_def)

theorem NewLogger_success_witness:
  "NewLogger ''svc'' True [] ''/var/log/svc.log'' [] ''verbose'' False
     = (\<lparr>ServiceName = ''svc'', Pod = [], LogLevel = ''verbose'',
         LogAnalyserAddress = [], LogAnalyserEnabled = False,
         Console = True, LogFilePath = ''/var/log/svc.log''\<rparr>, None)"
  using NewLogger_success[of True "''/var/log/svc.log''" "[]" "''svc''" "[]" "''verbose''" False]
  by simp

text \<open>
  C9 as stated: this input satisfies both invariants of the specification (the analyser
  flag is on, the service name is given), and \<open>NewLogger\<close> returns an error.
\<close>

theorem NewLogger_enabled_only_counterexample:
  "NewLogger ''svc'' False [] [] [] ''debug'' True = (Config_zero, Some err_no_destination)"
  by (simp add: NewLogger_def)

subsection \<open>Level normalisation\<close>

text \<open>
  C5 (as amended). Both normalisers are total. The switch of \<open>InitLogger\<close> in
  \<open>logging.go\<close> is as the claim says, for every string: the level named by the
  lower-case form of the string, and the info level when that form is none of the seven
  names. \<open>parseLogLevel\<close> matches the upper-case form instead, and agrees with that on
  every string but the spellings of panic with a Turkish i: a string whose upper-case
  form is \<open>PANIC\<close> is the panic level also when its lower-case form is not \<open>panic\<close>
  (it then has a dotless i, U+0131), and a string whose lower-case form is \<open>panic\<close>
  while its upper-case form is not \<open>PANIC\<close> (it then has a capital I with dot, U+0130)
  is the info level.
\<close>

theorem level_normalisation:
  "logLevel_switch s = levelOfName (ToLower s)
   \<and> parseLogLevel s =
       (if ToUpper s = ''PANIC'' then PanicLevel
        else if ToLower s = ''panic'' then InfoLevel
        else levelOfName (ToLower s))"
  using logLevel_switch_spec parseLogLevel_exact by blast

theorem level_normalisation_witness:
  "logLevel_switch ''WaRn'' = WarnLevel \<and> parseLogLevel ''WaRn'' = WarnLevel
   \<and> logLevel_switch ''verbose'' = InfoLevel \<and> parseLogLevel ''verbose'' = InfoLevel
   \<and> logLevel_switch [] = InfoLevel \<and> parseLogLevel [] = InfoLevel
   \<and> parseLogLevel [CHR ''d'', CHR 0xC3, CHR 0xA9, CHR ''b'', CHR ''u'', CHR ''g''] = InfoLevel"
proof -
  have "levelOfName (ToLower ''WaRn'') = WarnLevel"
    "ToUpper ''WaRn'' \<noteq> ''PANIC''" "ToLower ''WaRn'' \<noteq> ''panic''"
    "levelOfName (ToLower ''verbose'') = InfoLevel"
    "ToUpper ''verbose'' \<noteq> ''PANIC''" "ToLower ''verbose'' \<noteq> ''panic''"
    "levelOfName (ToLower []) = InfoLevel"
    "ToUpper [] \<noteq> ''PANIC''" "ToLower [] \<noteq> ''panic''"
    "levelOfName (ToLower [CHR ''d'', CHR 0xC3, CHR 0xA9, CHR ''b'', CHR ''u'', CHR ''g''])
       = InfoLevel"
    "ToUpper [CHR ''d'', CHR 0xC3, CHR 0xA9, CHR ''b'', CHR ''u'', CHR ''g''] \<noteq> ''PANIC''"
    "ToLower [CHR ''d'', CHR 0xC3, CHR 0xA9, CHR ''b'', CHR ''u'', CHR ''g''] \<noteq> ''panic''"
    by code_simp+
  then show ?thesis
    using level_normalisation[of "''WaRn''"] level_normalisation[of "''verbose''"]
      level_normalisation[of "[]"]
      level_normalisation[of "[CHR ''d'', CHR 0xC3, CHR 0xA9, CHR ''b'', CHR ''u'', CHR ''g'']"]
    by simp
qed

text \<open>
  C5 as stated fails for \<open>parseLogLevel\<close> on two strings that are not ASCII. The string
  \<open>pan\<close>, dotless i (bytes C4 B1), \<open>c\<close> has a lower-case form that is none of the seven
  names, so the claim asks for the info level, and \<open>parseLogLevel\<close> gives the panic
  level. The string \<open>PAN\<close>, capital I with dot (bytes C4 B0), \<open>C\<close> has the lower-case
  form \<open>panic\<close>, so the claim asks for the panic level, and \<open>parseLogLevel\<close> gives the
  info level.
\<close>

theorem parseLogLevel_turkish_i_counterexample:
  "parseLogLevel [CHR ''p'', CHR ''a'', CHR ''n'', CHR 0xC4, CHR 0xB1, CHR ''c''] = PanicLevel
   \<and> levelOfName (ToLower [CHR ''p'', CHR ''a'', CHR ''n'', CHR 0xC4, CHR 0xB1, CHR ''c''])
       = InfoLevel
   \<and> ToLower [CHR ''P'', CHR ''A'', CHR ''N'', CHR 0xC4, CHR 0xB0, CHR ''C''] = ''panic''
   \<and> parseLogLevel [CHR ''P'', CHR ''A'', CHR ''N'', CHR 0xC4, CHR 0xB0, CHR ''C''] = InfoLevel"
  by code_simp

subsection \<open>Initialisation\<close>

text \<open>
  C6 (as amended). If a call \<open>InitLogger(c1)\<close> returns, whatever the state before it,
  then a following call \<open>InitLogger(c2)\<close>, for any configuration and any behaviour of
  the file system and the network, returns too and leaves the initialised flag, the
  time format and the logger (its sinks, its minimum level and its fixed fields) as the
  first call left them. It emits one warning-level record through that logger when the
  logger's minimum level lets the warn level pass (trace, debug, info or warn), and
  emits nothing when the minimum level is error, fatal or panic. When the first call
  was the initialising one, that minimum level is the normalised \<open>LogLevel\<close> of \<open>c1\<close>.
\<close>

theorem InitLogger_first_wins:
  assumes "InitLogger env1 c1 s0 = Inr s1"
  shows "InitLogger env2 c2 s1 =
     Inr (if Logger_should (log_Logger s1) WarnLevel then
            s1\<lparr>emitted := emitted s1 @
              [(log_Logger s1, \<lparr>entry_level = WarnLevel, entry_fields = [],
                                entry_message = warn_already_initialized\<rparr>)]\<rparr>
          else s1)
     \<and> (\<not> initialized s0 \<longrightarrow> minLevel (log_Logger s1) = parseLogLevel (LogLevel c1))"
  using InitLogger_result[OF assms] by (simp add: InitLogger_again)

theorem InitLogger_first_wins_witness:
  "\<exists>s1. InitLogger \<lparr>openError = (\<lambda>p. None), dialError = (\<lambda>n a. None), os_Getpid = 4242\<rparr>
           \<lparr>ServiceName = ''svc'', Pod = [], LogLevel = ''debug'',
            LogAnalyserAddress = [], LogAnalyserEnabled = False,
            Console = True, LogFilePath = []\<rparr> State_start = Inr s1
      \<and> out (log_Logger s1) = MultiWriter [Stdout]
      \<and> minLevel (log_Logger s1) = DebugLevel
      \<and> InitLogger \<lparr>openError = (\<lambda>p. None), dialError = (\<lambda>n a. None), os_Getpid = 4242\<rparr>
           \<lparr>ServiceName = ''other'', Pod = ''pod-9'', LogLevel = ''error'',
            LogAnalyserAddress = ''collector:5000'', LogAnalyserEnabled = True,
            Console = False, LogFilePath = ''/var/log/other.log''\<rparr> s1 =
         Inr (s1\<lparr>emitted := emitted s1 @
           [(log_Logger s1, \<lparr>entry_level = WarnLevel, entry_fields = [],
                             entry_message = warn_already_initialized\<rparr>)]\<rparr>)"
proof -
  let ?E = "\<lparr>openError = (\<lambda>p. None), dialError = (\<lambda>n a. None), os_Getpid = 4242\<rparr>"
  let ?C = "\<lparr>ServiceName = ''svc'', Pod = [], LogLevel = ''debug'',
            LogAnalyserAddress = [], LogAnalyserEnabled = False,
            Console = True, LogFilePath = []\<rparr>"
  have ni: "\<not> initialized State_start" by (simp add: State_start_def)
  have lv: "parseLogLevel ''debug'' = DebugLevel" by code_simp
  obtain s1 where s1: "InitLogger ?E ?C State_start = Inr s1"
      and o: "out (log_Logger s1) = MultiWriter [Stdout]"
      and m: "minLevel (log_Logger s1) = DebugLevel"
    using InitLogger_fresh[OF ni, of ?C ?E] by (simp add: sinkOrder_def lv)
  from m have "Logger_should (log_Logger s1) WarnLevel" by (simp add: Logger_should_def)
  with InitLogger_first_wins[OF s1] s1 o m show ?thesis by auto
qed

text \<open>
  C6 as stated fails when the first configuration sets the level error: the second
  call returns the state unchanged, with no warning record emitted.
\<close>

theorem InitLogger_second_call_silent_counterexample:
  "\<exists>s1. InitLogger \<lparr>openError = (\<lambda>p. None), dialError = (\<lambda>n a. None), os_Getpid = 4242\<rparr>
           \<lparr>ServiceName = ''svc'', Pod = [], LogLevel = ''error'',
            LogAnalyserAddress = [], LogAnalyserEnabled = False,
            Console = True, LogFilePath = []\<rparr> State_start = Inr s1
      \<and> minLevel (log_Logger s1) = ErrorLevel
      \<and> emitted s1 = []
      \<and> InitLogger \<lparr>openError = (\<lambda>p. None), dialError = (\<lambda>n a. None), os_Getpid = 4242\<rparr>
           \<lparr>ServiceName = ''svc'', Pod = [], LogLevel = ''debug'',
            LogAnalyserAddress = [], LogAnalyserEnabled = False,
            Console = True, LogFilePath = []\<rparr> s1 = Inr s1"
proof -
  let ?E = "\<lparr>openError = (\<lambda>p. None), dialError = (\<lambda>n a. None), os_Getpid = 4242\<rparr>"
  let ?C = "\<lparr>ServiceName = ''svc'', Pod = [], LogLevel = ''error'',
            LogAnalyserAddress = [], LogAnalyserEnabled = False,
            Console = True, LogFilePath = []\<rparr>"
  have ni: "\<not> initialized State_start" by (simp add: State_start_def)
  have lv: "parseLogLevel ''error'' = ErrorLevel" by code_simp
  obtain s1 where s1: "InitLogger ?E ?C State_start = Inr s1"
      and m: "minLevel (log_Logger s1) = ErrorLevel"
      and e: "emitted s1 = []" and i: "initialized s1"
    using InitLogger_fresh[OF ni, of ?C ?E] by (simp add: sinkOrder_def lv State_start_def)
  from m have "\<not> Logger_should (log_Logger s1) WarnLevel" by (simp add: Logger_should_def)
  with InitLogger_again[OF i] s1 m e show ?thesis by auto
qed

text \<open>
  C10. On a process that is not yet initialised, when the opens and dials the
  configuration asks for succeed, \<open>InitLogger\<close> returns, and the writer of the new
  logger is the multi-writer over the active sinks in the order console, file,
  remote collector (the sinks of \<open>sinkOrder\<close> that the configuration switches on, in
  that order); when no sink is active the writer is standard output alone.
\<close>

theorem InitLogger_sink_order:
  assumes "\<not> initialized s"
    and "LogFilePath config \<noteq> [] \<longrightarrow> openError env (LogFilePath config) = None"
    and "LogAnalyserEnabled config \<longrightarrow> dialError env ''tcp'' (LogAnalyserAddress config) = None"
  shows "\<exists>s'. InitLogger env config s = Inr s' \<and>
     out (log_Logger s') =
       (if filter (sinkActive config) (sinkOrder config) = [] then Stdout
        else MultiWriter (filter (sinkActive config) (sinkOrder config)))"
  by (simp add: InitLogger_fresh[OF assms])

theorem InitLogger_sink_order_witness:
  "(\<exists>s'. InitLogger \<lparr>openError = (\<lambda>p. None), dialError = (\<lambda>n a. None), os_Getpid = 4242\<rparr>
           \<lparr>ServiceName = ''svc'', Pod = ''pod-1'', LogLevel = ''debug'',
            LogAnalyserAddress = ''collector:5000'', LogAnalyserEnabled = True,
            Console = True, LogFilePath = ''/var/log/svc.log''\<rparr> State_start = Inr s' \<and>
         out (log_Logger s') =
           MultiWriter [Stdout, FileWriter ''/var/log/svc.log'',
                        LogstashWriter (Conn ''tcp'' ''collector:5000'')])
   \<and> (\<exists>s'. InitLogger \<lparr>openError = (\<lambda>p. None), dialError = (\<lambda>n a. None), os_Getpid = 4242\<rparr>
           \<lparr>ServiceName = ''svc'', Pod = ''pod-1'', LogLevel = ''debug'',
            LogAnalyserAddress = ''collector:5000'', LogAnalyserEnabled = False,
            Console = False, LogFilePath = []\<rparr> State_start = Inr s' \<and>
         out (log_Logger s') = Stdout)"
  using InitLogger_sink_order[of State_start
       "\<lparr>ServiceName = ''svc'', Pod = ''pod-1'', LogLevel = ''debug'',
            LogAnalyserAddress = ''collector:5000'', LogAnalyserEnabled = True,
            Console = True, LogFilePath = ''/var/log/svc.log''\<rparr>"
       "\<lparr>openError = (\<lambda>p. None), dialError = (\<lambda>n a. None), os_Getpid = 4242\<rparr>"]
    InitLogger_sink_order[of State_start
       "\<lparr>ServiceName = ''svc'', Pod = ''pod-1'', LogLevel = ''debug'',
            LogAnalyserAddress = ''collector:5000'', LogAnalyserEnabled = False,
            Console = False, LogFilePath = []\<rparr>"
       "\<lparr>openError = (\<lambda>p. None), dialError = (\<lambda>n a. None), os_Getpid = 4242\<rparr>"]
  by (simp add: State_start_def sinkOrder_def)

subsection \<open>Leveled logging\<close>

text \<open>
  C2, evaluated on the code. \<open>ErrorWithError(err)\<close> with no extra fields emits, when the
  error level is enabled, exactly one record at the error level whose message is
  \<open>err.Error()\<close>; but the pair \<open>"error", errors.WithStack(err)\<close> it appends has a value
  that is not a string, so \<open>logWithFields\<close> replaces it by the diagnostic: the record
  carries the \<open>fields_error\<close> field only, and neither the error nor its stack.
\<close>

theorem ErrorWithError_drops_the_error:
  "ErrorWithError (Some e) [] s =
     Inr (if Logger_should (log_Logger s) ErrorLevel then
            s\<lparr>emitted := emitted s @
              [(log_Logger s, \<lparr>entry_level = ErrorLevel,
                  entry_fields = [diagnostic ''key-value pairs must be strings''],
                  entry_message = error_Error e\<rparr>)]\<rparr>
          else s)"
  using logWithFields_even_bad[of "[StringV ''error'', ErrorV (errors_WithStack e)]" 0
      ErrorLevel "error_Error e" s]
  by (simp add: ErrorWithError_def pairOK_def)

text \<open>
  C3 (as amended). Each of the seven leveled calls, given a field list of odd length or
  one with a pair that has an element that is not a string, returns without a panic.
  When the level of the call is enabled on the current logger it emits exactly one
  record, at that level and with the message of the call. For a list of odd length the
  record's only field is the diagnostic \<open>fields_error\<close>; for a list of even length the
  record keeps the well-formed pairs that come before the first ill-formed one, as
  string fields in order, and the ill-formed pair and all that follows it are replaced
  by the one diagnostic. When the level is below the logger's minimum level no record
  is emitted.
\<close>

theorem leveled_malformed:
  assumes "odd (length flds) \<or> (\<exists>j. 2 * j + 1 < length flds \<and> \<not> pairOK flds j)"
  shows "leveled lv m flds s =
     Inr (if Logger_should (log_Logger s) lv then
            s\<lparr>emitted := emitted s @
              [(log_Logger s,
                \<lparr>entry_level = lv,
                 entry_fields =
                   (if odd (length flds)
                    then [diagnostic ''uneven number of key-value pairs'']
                    else map (strPair flds) [0..<goodPairs flds] @
                         [diagnostic ''key-value pairs must be strings'']),
                 entry_message = m\<rparr>)]\<rparr>
          else s)"
proof (cases "odd (length flds)")
  case True
  then show ?thesis
    by (simp add: leveled_logWithFields logWithFields_odd)
next
  case False
  then have ev: "even (length flds)" by simp
  from assms False have ex: "\<exists>j. 2 * j + 1 < length flds \<and> \<not> pairOK flds j" by blast
  from goodPairs_first_bad[OF ev ex]
  have "logWithFields lv m flds s =
     Inr (if Logger_should (log_Logger s) lv then
            s\<lparr>emitted := emitted s @
              [(log_Logger s, \<lparr>entry_level = lv,
                  entry_fields = map (strPair flds) [0..<goodPairs flds] @
                     [diagnostic ''key-value pairs must be strings''],
                  entry_message = m\<rparr>)]\<rparr>
          else s)"
    by (intro logWithFields_even_bad[OF ev]) auto
  with False show ?thesis by (simp add: leveled_logWithFields)
qed

theorem leveled_malformed_witness:
  "Warn ''msg''
      [StringV ''a'', StringV ''b'', StringV ''key'', IntV 42, StringV ''c'', StringV ''d'']
      State_start =
    Inr (State_start\<lparr>emitted :=
          [(log_Logger State_start, \<lparr>entry_level = WarnLevel,
              entry_fields = [StrField ''a'' ''b'', diagnostic ''key-value pairs must be strings''],
              entry_message = ''msg''\<rparr>)]\<rparr>)
   \<and> Info ''msg'' [StringV ''key''] State_start =
    Inr (State_start\<lparr>emitted :=
          [(log_Logger State_start, \<lparr>entry_level = InfoLevel,
              entry_fields = [diagnostic ''uneven number of key-value pairs''],
              entry_message = ''msg''\<rparr>)]\<rparr>)
   \<and> Debug ''msg'' [StringV ''key'', IntV 42]
        (State_start\<lparr>log_Logger := (log_Logger State_start)\<lparr>minLevel := WarnLevel\<rparr>\<rparr>) =
    Inr (State_start\<lparr>log_Logger := (log_Logger State_start)\<lparr>minLevel := WarnLevel\<rparr>\<rparr>)"
proof -
  let ?six = "[StringV ''a'', StringV ''b'', StringV ''key'', IntV 42, StringV ''c'', StringV ''d'']"
  let ?quiet = "State_start\<lparr>log_Logger := (log_Logger State_start)\<lparr>minLevel := WarnLevel\<rparr>\<rparr>"
  have h1: "odd (length ?six) \<or> (\<exists>j. 2 * j + 1 < length ?six \<and> \<not> pairOK ?six j)"
    by (rule disjI2, rule exI[of _ 1]) (simp add: pairOK_def)
  have h2: "odd (length [StringV ''key'']) \<or>
      (\<exists>j. 2 * j + 1 < length [StringV ''key''] \<and> \<not> pairOK [StringV ''key''] j)"
    by simp
  have h3: "odd (length [StringV ''key'', IntV 42]) \<or>
      (\<exists>j. 2 * j + 1 < length [StringV ''key'', IntV 42] \<and>
           \<not> pairOK [StringV ''key'', IntV 42] j)"
    by (rule disjI2, rule exI[of _ 0]) (simp add: pairOK_def)
  show ?thesis
    using leveled_malformed[OF h1, of WarnLevel "''msg''" State_start]
      leveled_malformed[OF h2, of InfoLevel "''msg''" State_start]
      leveled_malformed[OF h3, of DebugLevel "''msg''" ?quiet]
    by (simp add: strPair_def State_start_def Logger_should_def zerolog_New_def)
qed

text \<open>
  C3 as stated fails twice. With a well-formed pair before the ill-formed one, the
  record carries that pair beside the diagnostic, so the field set is not replaced by a
  single field; and a call below the logger's minimum level emits no record at all.
\<close>

theorem leveled_keeps_leading_pairs_counterexample:
  "Info ''msg'' [StringV ''a'', StringV ''b'', StringV ''key'', IntV 42] State_start =
    Inr (State_start\<lparr>emitted :=
          [(log_Logger State_start, \<lparr>entry_level = InfoLevel,
              entry_fields = [StrField ''a'' ''b'', diagnostic ''key-value pairs must be strings''],
              entry_message = ''msg''\<rparr>)]\<rparr>)
   \<and> Debug ''msg'' [StringV ''key'']
        (State_start\<lparr>log_Logger := (log_Logger State_start)\<lparr>minLevel := WarnLevel\<rparr>\<rparr>) =
    Inr (State_start\<lparr>log_Logger := (log_Logger State_start)\<lparr>minLevel := WarnLevel\<rparr>\<rparr>)"
proof -
  have "\<not> pairOK [StringV ''a'', StringV ''b'', StringV ''key'', IntV 42] 1"
    by (simp add: pairOK_def)
  then show ?thesis
    using logWithFields_even_bad[of "[StringV ''a'', StringV ''b'', StringV ''key'', IntV 42]" 1
        InfoLevel "''msg''" State_start]
      logWithFields_odd[of "[StringV ''key'']" DebugLevel "''msg''"
        "State_start\<lparr>log_Logger := (log_Logger State_start)\<lparr>minLevel := WarnLevel\<rparr>\<rparr>"]
    by (auto simp add: Info_def Debug_def pairOK_def strPair_def State_start_def
          Logger_should_def zerolog_New_def)
qed

text \<open>
  C4. For a field list of even length whose first ill-formed pair is pair \<open>i\<close>, the
  record carries the pairs \<open>0, \<dots>, i - 1\<close> as string fields, in order, then the one
  diagnostic, and nothing of pair \<open>i\<close> or of the pairs after it. For a field list of
  odd length the record carries the diagnostic and none of the caller's fields. (The
  record is emitted when the level of the call is enabled on the current logger.)
\<close>

theorem logWithFields_fields_attached:
  "(even (length flds) \<and> 2 * i + 1 < length flds \<and> \<not> pairOK flds i \<and>
      (\<forall>j<i. pairOK flds j) \<longrightarrow>
     logWithFields lv m flds s =
       Inr (if Logger_should (log_Logger s) lv then
              s\<lparr>emitted := emitted s @
                [(log_Logger s, \<lparr>entry_level = lv,
                    entry_fields = map (strPair flds) [0..<i] @
                       [diagnostic ''key-value pairs must be strings''],
                    entry_message = m\<rparr>)]\<rparr>
            else s))
   \<and> (odd (length flds) \<longrightarrow>
     logWithFields lv m flds s =
       Inr (if Logger_should (log_Logger s) lv then
              s\<lparr>emitted := emitted s @
                [(log_Logger s, \<lparr>entry_level = lv,
                    entry_fields = [diagnostic ''uneven number of key-value pairs''],
                    entry_message = m\<rparr>)]\<rparr>
            else s))"
  using logWithFields_even_bad logWithFields_odd by blast

theorem logWithFields_fields_attached_witness:
  "logWithFields InfoLevel ''msg''
      [StringV ''a'', StringV ''b'', StringV ''key'', IntV 42, StringV ''c'', StringV ''d'']
      State_start =
    Inr (State_start\<lparr>emitted :=
          [(log_Logger State_start, \<lparr>entry_level = InfoLevel,
              entry_fields = [StrField ''a'' ''b'', diagnostic ''key-value pairs must be strings''],
              entry_message = ''msg''\<rparr>)]\<rparr>)
   \<and> logWithFields InfoLevel ''msg'' [StringV ''key''] State_start =
    Inr (State_start\<lparr>emitted :=
          [(log_Logger State_start, \<lparr>entry_level = InfoLevel,
              entry_fields = [diagnostic ''uneven number of key-value pairs''],
              entry_message = ''msg''\<rparr>)]\<rparr>)"
  using logWithFields_fields_attached[of
      "[StringV ''a'', StringV ''b'', StringV ''key'', IntV 42, StringV ''c'', StringV ''d'']"
      1 InfoLevel "''msg''" State_start]
    logWithFields_fields_attached[of "[StringV ''key'']" 0 InfoLevel "''msg''" State_start]
  by (simp add: pairOK_def strPair_def State_start_def Logger_should_def zerolog_New_def)

end
